theory Spec2Isabelle
  imports Main "HOL-Library.AList"
begin

section \<open>The PLS playlist parser of transmittr (app/utils/parsers/pls.js)\<close>

text \<open>
  A shallow embedding of \<^verbatim>\<open>plsParser\<close>. A JavaScript string is modelled as a
  \<^typ>\<open>string\<close>, one \<^typ>\<open>char\<close> per code unit: the parser compares code units with
  ASCII constants only and never decodes them. The mutable objects of the function
  (\<^verbatim>\<open>pls\<close>, \<^verbatim>\<open>pls.tracks\<close>, \<^verbatim>\<open>createdTracks\<close>) are threaded through the loop as an
  explicit state; a \<^verbatim>\<open>TypeError\<close> that the code could raise is a value \<open>Inl\<close>.
\<close>

subsection \<open>JavaScript values and built-in string operations\<close>

datatype jsval = JNum int | JStr string | JUndefined

datatype js_error = TypeError

text \<open>\<^verbatim>\<open>s.indexOf(c)\<close>: the position of the first occurrence, or \<open>-1\<close>.\<close>

definition indexOf :: "string \<Rightarrow> char \<Rightarrow> int" where
  "indexOf s c = (if c \<in> set s then int (length (takeWhile (\<lambda>x. x \<noteq> c) s)) else - 1)"

text \<open>The character class \<^verbatim>\<open>\d\<close> of a regular expression without the unicode flag.\<close>

definition is_digit :: "char \<Rightarrow> bool" where
  "is_digit c = (c \<in> set ''0123456789'')"

text \<open>\<^verbatim>\<open>s.search(/\d/)\<close>: the position of the first digit, or \<open>-1\<close>.\<close>

definition search_digit :: "string \<Rightarrow> int" where
  "search_digit s =
     (if list_ex is_digit s then int (length (takeWhile (\<lambda>x. \<not> is_digit x) s)) else - 1)"

text \<open>
  \<^verbatim>\<open>s.slice(start, stop)\<close>: a negative argument counts from the end of the string, both are
  clamped to the string, and an empty range gives the empty string.
\<close>

definition slice :: "string \<Rightarrow> int \<Rightarrow> int \<Rightarrow> string" where
  "slice s start stop =
     (let len = int (length s);
          lo = (if start < 0 then max (len + start) 0 else min start len);
          hi = (if stop < 0 then max (len + stop) 0 else min stop len)
      in take (nat (max (hi - lo) 0)) (drop (nat lo) s))"

text \<open>\<^verbatim>\<open>s.slice(start)\<close>: the stop argument defaults to the length.\<close>

definition slice_from :: "string \<Rightarrow> int \<Rightarrow> string" where
  "slice_from s start = slice s start (int (length s))"

text \<open>
  \<^verbatim>\<open>s.substring(start, stop)\<close>: both arguments are clamped to \<open>0 .. length\<close> (a negative
  one becomes \<open>0\<close>) and swapped when they are out of order.
\<close>

definition substring :: "string \<Rightarrow> int \<Rightarrow> int \<Rightarrow> string" where
  "substring s start stop =
     (let len = int (length s);
          a = min (max start 0) len;
          b = min (max stop 0) len
      in take (nat (max a b - min a b)) (drop (nat (min a b)) s))"

definition substring_from :: "string \<Rightarrow> int \<Rightarrow> string" where
  "substring_from s start = substring s start (int (length s))"

text \<open>\<^verbatim>\<open>s.startsWith(p)\<close>, also the anchored literal match of a regular expression.\<close>

definition startsWith :: "string \<Rightarrow> string \<Rightarrow> bool" where
  "startsWith s p = (take (length p) s = p)"

text \<open>
  \<^verbatim>\<open>s.split(c)\<close> for a separator of one character (\<^verbatim>\<open>split(/\n/)\<close>, \<^verbatim>\<open>split('=')\<close>): the
  pieces between the separators, the empty ones included; always at least one piece.
\<close>

fun split_on :: "char \<Rightarrow> string \<Rightarrow> string list" where
  "split_on c [] = [[]]"
| "split_on c (x # xs) =
     (if x = c then [] # split_on c xs
      else (case split_on c xs of [] \<Rightarrow> [[x]] | y # ys \<Rightarrow> (x # y) # ys))"

text \<open>\<^verbatim>\<open>parts[i]\<close> on an array of strings: \<^verbatim>\<open>undefined\<close> out of range.\<close>

definition array_get :: "string list \<Rightarrow> nat \<Rightarrow> jsval" where
  "array_get parts i = (if i < length parts then JStr (parts ! i) else JUndefined)"

text \<open>
  \<^verbatim>\<open>parts.unshift()\<close> with no argument: it prepends nothing and removes nothing (its result,
  the length, is discarded by the caller), so the array is left as it is.
\<close>

definition unshift :: "string list \<Rightarrow> string list" where
  "unshift parts = [] @ parts"

subsection \<open>Ember's camelize\<close>

text \<open>
  Modelled from the spec: \<^verbatim>\<open>Ember.String.camelize\<close> is imported from the Ember library and
  is not part of the repository's sources. The spec describes it as normalising a keyword
  to its lowercase-initial form (\<open>File\<close> to \<open>file\<close>, \<open>Length\<close> to \<open>length\<close>, \<open>Title\<close> to
  \<open>title\<close>, \<open>Numberofentries\<close> to \<open>numberofentries\<close>, \<open>Version\<close> to \<open>version\<close>). The
  parser only ever passes it one of these five keywords or the empty string.
\<close>

definition lower_initial :: "char \<Rightarrow> char" where
  "lower_initial c =
     (case map_of (zip ''ABCDEFGHIJKLMNOPQRSTUVWXYZ'' ''abcdefghijklmnopqrstuvwxyz'') c of
        Some l \<Rightarrow> l | None \<Rightarrow> c)"

definition camelize :: "string \<Rightarrow> string" where
  "camelize s = (case s of [] \<Rightarrow> [] | c # cs \<Rightarrow> lower_initial c # cs)"

subsection \<open>The data model\<close>

text \<open>
  A track object literal \<^verbatim>\<open>{file: '', length: -1, title: ''}\<close>. Properties are assigned
  by computed name, so a name other than the three fields becomes an additional own
  property, kept in \<open>other\<close> in insertion order.
\<close>

record track =
  "file" :: jsval
  length' :: jsval
  title :: jsval
  other :: "(string \<times> jsval) list"

definition new_track :: track where
  "new_track = \<lparr>file = JStr [], length' = JNum (- 1), title = JStr [], other = []\<rparr>"

text \<open>
  \<^verbatim>\<open>track[name] = value\<close>. Assigning a string to \<^verbatim>\<open>__proto__\<close> is ignored by the
  language.
\<close>

definition track_set :: "string \<Rightarrow> jsval \<Rightarrow> track \<Rightarrow> track" where
  "track_set name v t =
     (if name = ''file'' then t\<lparr>file := v\<rparr>
      else if name = ''length'' then t\<lparr>length' := v\<rparr>
      else if name = ''title'' then t\<lparr>title := v\<rparr>
      else if name = ''__proto__'' then t
      else t\<lparr>other := AList.update name v (other t)\<rparr>)"

text \<open>The result object. Its first key is spelled \<^verbatim>\<open>numberofentries\<close> in the source.\<close>

record pls =
  numberofentries :: jsval
  playlistType :: string
  tracks :: "track list"
  version :: jsval

definition PLAYLIST_TYPE :: string where
  "PLAYLIST_TYPE = ''pls''"

definition NUMBER_OF_ENTRIES :: string where
  "NUMBER_OF_ENTRIES = ''Numberofentries''"

definition VERSION :: string where
  "VERSION = ''Version''"

definition initial_pls :: pls where
  "initial_pls = \<lparr>numberofentries = JNum 0, playlistType = PLAYLIST_TYPE,
                  tracks = [], version = JNum 2\<rparr>"

text \<open>
  \<^verbatim>\<open>pls[name] = value\<close> for the two names the parser computes,
  \<^verbatim>\<open>camelize(NUMBER_OF_ENTRIES)\<close> and \<^verbatim>\<open>camelize(VERSION)\<close>; any other name would be
  a property the record does not show and leaves the four fields alone.
\<close>

definition pls_set :: "string \<Rightarrow> jsval \<Rightarrow> pls \<Rightarrow> pls" where
  "pls_set name v p =
     (if name = ''numberofentries'' then p\<lparr>numberofentries := v\<rparr>
      else if name = ''version'' then p\<lparr>version := v\<rparr>
      else p)"

subsection \<open>The record of created tracks\<close>

text \<open>
  \<^verbatim>\<open>createdTracks\<close> is a plain object \<^verbatim>\<open>{}\<close> used as a dictionary from index suffix to
  position. Reading a key that is not an own property falls through to
  \<^verbatim>\<open>Object.prototype\<close>, whose members are functions or objects, hence truthy.
\<close>

definition Object_prototype_keys :: "string list" where
  "Object_prototype_keys =
     [''constructor'', ''hasOwnProperty'', ''isPrototypeOf'', ''propertyIsEnumerable'',
      ''toLocaleString'', ''toString'', ''valueOf'', ''__proto__'',
      ''__defineGetter__'', ''__defineSetter__'', ''__lookupGetter__'', ''__lookupSetter__'']"

datatype lookup = Own nat | Inherited | Missing

definition createdTracks_get :: "(string \<times> nat) list \<Rightarrow> string \<Rightarrow> lookup" where
  "createdTracks_get created k =
     (case map_of created k of
        Some n \<Rightarrow> Own n
      | None \<Rightarrow> if k \<in> set Object_prototype_keys then Inherited else Missing)"

text \<open>The condition \<^verbatim>\<open>if (createdTracks[existingTrackKey])\<close>: the number \<open>0\<close> is falsy.\<close>

fun truthy :: "lookup \<Rightarrow> bool" where
  "truthy (Own n) = (n \<noteq> 0)"
| "truthy Inherited = True"
| "truthy Missing = False"

text \<open>\<^verbatim>\<open>createdTracks[k] = n\<close>; a number assigned to \<^verbatim>\<open>__proto__\<close> is ignored.\<close>

definition createdTracks_set :: "string \<Rightarrow> nat \<Rightarrow> (string \<times> nat) list \<Rightarrow> (string \<times> nat) list" where
  "createdTracks_set k n created =
     (if k = ''__proto__'' then created else AList.update k n created)"

text \<open>
  The two statements of the first branch: \<^verbatim>\<open>existingTrack = pls.tracks[createdTracks[k]]\<close>
  and \<^verbatim>\<open>existingTrack[name] = value\<close>. The track read is an element of the array, so the
  assignment changes the array in place. An index past the end, or a key that is not an
  index, reads \<^verbatim>\<open>undefined\<close>, and assigning a property of \<^verbatim>\<open>undefined\<close> raises.
\<close>

fun existingTrack_assign :: "track list \<Rightarrow> lookup \<Rightarrow> string \<Rightarrow> jsval \<Rightarrow> js_error + track list" where
  "existingTrack_assign ts (Own n) name v =
     (if n < length ts then Inr (ts[n := track_set name v (ts ! n)]) else Inl TypeError)"
| "existingTrack_assign ts Inherited name v = Inl TypeError"
| "existingTrack_assign ts Missing name v = Inl TypeError"

subsection \<open>The loop body\<close>

text \<open>The regular expression \<^verbatim>\<open>/^(File|Length|Title)\d+/\<close>, tested against an entry.\<close>

definition TRACK_PROPERTY_MATCHER :: "string \<Rightarrow> bool" where
  "TRACK_PROPERTY_MATCHER entry =
     list_ex (\<lambda>p. startsWith entry p \<and>
                  (case drop (length p) entry of [] \<Rightarrow> False | c # _ \<Rightarrow> is_digit c))
             [''File'', ''Length'', ''Title'']"

text \<open>The four local variables computed for a track-property entry.\<close>

definition entry_key :: "string \<Rightarrow> string" where
  "entry_key entry = slice entry 0 (indexOf entry CHR ''='')"

definition entry_value :: "string \<Rightarrow> string" where
  "entry_value entry = slice_from entry (indexOf entry CHR ''='' + 1)"

definition trackPropertyName :: "string \<Rightarrow> string" where
  "trackPropertyName entry =
     camelize (substring (entry_key entry) 0 (search_digit (entry_key entry)))"

definition existingTrackKey :: "string \<Rightarrow> string" where
  "existingTrackKey entry = substring_from (entry_key entry) (search_digit (entry_key entry))"

record state =
  doc :: pls
  createdTracks :: "(string \<times> nat) list"

text \<open>
  The callback of \<^verbatim>\<open>plsParts.forEach\<close>. In its first branch \<^verbatim>\<open>existingTrack\<close> aliases an
  element of \<^verbatim>\<open>pls.tracks\<close>, so the assignment updates the array in place; when the element
  is \<^verbatim>\<open>undefined\<close> the assignment raises a \<^verbatim>\<open>TypeError\<close>.
\<close>

definition process_entry :: "string \<Rightarrow> state \<Rightarrow> js_error + state" where
  "process_entry entry st =
     (if TRACK_PROPERTY_MATCHER entry then
        (let v = JStr (entry_value entry);
             name = trackPropertyName entry;
             k = existingTrackKey entry;
             found = createdTracks_get (createdTracks st) k;
             ts = tracks (doc st)
         in if truthy found then
              (case existingTrack_assign ts found name v of
                 Inl e \<Rightarrow> Inl e
               | Inr ts' \<Rightarrow> Inr (st\<lparr>doc := (doc st)\<lparr>tracks := ts'\<rparr>\<rparr>))
            else
              Inr (st\<lparr>doc := (doc st)\<lparr>tracks := ts @ [track_set name v new_track]\<rparr>,
                      createdTracks := createdTracks_set k (length ts) (createdTracks st)\<rparr>))
      else if startsWith entry NUMBER_OF_ENTRIES then
        Inr (st\<lparr>doc := pls_set (camelize NUMBER_OF_ENTRIES)
                              (array_get (split_on CHR ''='' entry) 1) (doc st)\<rparr>)
      else if startsWith entry VERSION then
        Inr (st\<lparr>doc := pls_set (camelize VERSION)
                              (array_get (split_on CHR ''='' entry) 1) (doc st)\<rparr>)
      else Inr st)"

text \<open>\<^verbatim>\<open>forEach\<close>: the entries in order; an exception ends the iteration.\<close>

fun forEach :: "string list \<Rightarrow> state \<Rightarrow> js_error + state" where
  "forEach [] st = Inr st"
| "forEach (entry # entries) st =
     (case process_entry entry st of
        Inl e \<Rightarrow> Inl e
      | Inr st' \<Rightarrow> forEach entries st')"

subsection \<open>The parser\<close>

text \<open>The entries iterated: \<^verbatim>\<open>rawPls.split(/\n/)\<close> after \<^verbatim>\<open>plsParts.unshift()\<close>.\<close>

definition plsParts :: "string \<Rightarrow> string list" where
  "plsParts rawPls = unshift (split_on CHR ''\<newline>'' rawPls)"

text \<open>
  The result is the returned object together with the calls made to \<^verbatim>\<open>Ember.Logger.error\<close>,
  each call with its two arguments.
\<close>

definition plsParser :: "string \<Rightarrow> js_error + (pls \<times> (string \<times> string) list)" where
  "plsParser rawPls =
     (if \<not> startsWith rawPls ''[playlist]'' then
        Inr (initial_pls, [(''Invalid pls file.  Received: '', rawPls)])
      else
        (case forEach (plsParts rawPls) \<lparr>doc = initial_pls, createdTracks = []\<rparr> of
           Inl e \<Rightarrow> Inl e
         | Inr st \<Rightarrow> Inr (doc st, [])))"

subsection \<open>An invariant of the loop\<close>

text \<open>Every position recorded in \<^verbatim>\<open>createdTracks\<close> is an index into \<^verbatim>\<open>pls.tracks\<close>.\<close>

definition positions_valid :: "state \<Rightarrow> bool" where
  "positions_valid st =
     (\<forall>k n. map_of (createdTracks st) k = Some n \<longrightarrow> n < length (tracks (doc st)))"

text \<open>
  Position \<open>p\<close> holds a track, and no suffix other than \<open>k\<close> is recorded at \<open>p\<close>.
\<close>

definition owns :: "string \<Rightarrow> nat \<Rightarrow> state \<Rightarrow> bool" where
  "owns k p st =
     (p < length (tracks (doc st)) \<and>
      (\<forall>k' n. map_of (createdTracks st) k' = Some n \<and> k' \<noteq> k \<longrightarrow> n \<noteq> p))"

section \<open>Properties of the string operations\<close>

lemma split_on_not_Nil: "split_on c s \<noteq> []"
  by (induction s) (auto split: list.splits)

lemma substring_from_drop: "substring_from s i = drop (nat i) s"
  by (auto simp: substring_from_def substring_def Let_def min_def max_def)

lemma substring_0_take: "substring s 0 i = take (nat i) s"
  by (auto simp: substring_def Let_def min_def max_def)

lemma entry_key_eq:
  "entry_key entry = (if CHR ''='' \<in> set entry then takeWhile (\<lambda>x. x \<noteq> CHR ''='') entry else butlast entry)"
proof (cases "CHR ''='' \<in> set entry")
  case True
  have "length (takeWhile (\<lambda>x. x \<noteq> CHR ''='') entry) \<le> length entry"
    by (rule length_takeWhile_le)
  then show ?thesis using True
    by (simp add: entry_key_def indexOf_def slice_def Let_def min_def takeWhile_eq_take [symmetric])
next
  case False
  then show ?thesis
    by (cases "entry = []") (auto simp: entry_key_def indexOf_def slice_def Let_def butlast_conv_take max_def nat_diff_distrib' int_ops)
qed

lemma first_occurrence_less:
  "c \<in> set s \<Longrightarrow> length (takeWhile (\<lambda>x. x \<noteq> c) s) < length s"
  by (induction s) auto

lemma entry_value_eq:
  "entry_value entry = (if CHR ''='' \<in> set entry then tl (dropWhile (\<lambda>x. x \<noteq> CHR ''='') entry) else entry)"
proof (cases "CHR ''='' \<in> set entry")
  case True
  define n where "n = length (takeWhile (\<lambda>x. x \<noteq> CHR ''='') entry)"
  have n: "n < length entry"
    unfolding n_def using True by (rule first_occurrence_less)
  have "nat (int (length entry) - (int n + 1)) = length entry - Suc n"
    by arith
  then have "entry_value entry = drop (Suc n) entry"
    using True n
    by (simp add: entry_value_def indexOf_def slice_from_def slice_def Let_def min_def max_def
        n_def [symmetric] nat_add_distrib)
  also have "\<dots> = tl (dropWhile (\<lambda>x. x \<noteq> CHR ''='') entry)"
    by (simp add: dropWhile_eq_drop n_def tl_drop drop_Suc)
  finally show ?thesis using True by simp
next
  case False
  then show ?thesis
    by (simp add: entry_value_def indexOf_def slice_from_def slice_def Let_def)
qed

lemma prefix_no_digit:
  "p \<in> {''File'', ''Length'', ''Title''} \<Longrightarrow> c \<in> set p \<Longrightarrow> \<not> is_digit c"
  by (auto simp: is_digit_def)

lemma digit_not_equals_sign: "is_digit d \<Longrightarrow> d \<noteq> CHR ''=''"
  by (auto simp: is_digit_def)

lemma prefix_no_equals_sign:
  "p \<in> {''File'', ''Length'', ''Title''} \<Longrightarrow> c \<in> set p \<Longrightarrow> c \<noteq> CHR ''=''"
  by auto

lemma startsWith_append: "startsWith s p \<Longrightarrow> s = p @ drop (length p) s"
  unfolding startsWith_def by (metis append_take_drop_id)

lemma TRACK_PROPERTY_MATCHER_shape:
  assumes "TRACK_PROPERTY_MATCHER entry"
  obtains p d r where "p \<in> {''File'', ''Length'', ''Title''}" "is_digit d" "entry = p @ d # r"
proof -
  from assms have "\<exists>p\<in>set [''File'', ''Length'', ''Title'']. startsWith entry p \<and>
      (case drop (length p) entry of [] \<Rightarrow> False | c # _ \<Rightarrow> is_digit c)"
    unfolding TRACK_PROPERTY_MATCHER_def list_ex_iff .
  then obtain p where m: "p \<in> set [''File'', ''Length'', ''Title'']" and p2: "startsWith entry p"
    and c: "(case drop (length p) entry of [] \<Rightarrow> False | c # _ \<Rightarrow> is_digit c)"
    by blast
  from m have p1: "p \<in> {''File'', ''Length'', ''Title''}" by simp
  note p = p1 p2
  from c obtain d r where d: "drop (length p) entry = d # r" "is_digit d"
    by (auto split: list.splits)
  from startsWith_append [OF p(2)] d(1) have "entry = p @ d # r" by simp
  with p(1) d(2) show thesis by (rule that)
qed

lemma search_digit_prefix:
  assumes "p \<in> {''File'', ''Length'', ''Title''}" "is_digit d"
  shows "search_digit (p @ d # x) = int (length p)"
proof -
  have "takeWhile (\<lambda>c. \<not> is_digit c) (p @ d # x) = p"
    using assms prefix_no_digit [OF assms(1)] by (simp add: takeWhile_append2)
  moreover have "list_ex is_digit (p @ d # x)"
    using assms(2) by (auto simp: list_ex_iff)
  ultimately show ?thesis by (simp add: search_digit_def)
qed

lemma search_digit_none:
  assumes "p \<in> {''File'', ''Length'', ''Title''}"
  shows "search_digit p = - 1"
  using prefix_no_digit [OF assms] by (auto simp: search_digit_def list_ex_iff)

text \<open>The key of a track-property entry, in its two shapes.\<close>

lemma entry_key_shape:
  assumes "p \<in> {''File'', ''Length'', ''Title''}" "is_digit d"
  shows "entry_key (p @ d # r) =
           (if CHR ''='' \<in> set r then p @ d # takeWhile (\<lambda>x. x \<noteq> CHR ''='') r
            else if r = [] then p else p @ d # butlast r)"
proof -
  have "takeWhile (\<lambda>x. x \<noteq> CHR ''='') (p @ d # r) = p @ d # takeWhile (\<lambda>x. x \<noteq> CHR ''='') r"
    using prefix_no_equals_sign [OF assms(1)] digit_not_equals_sign [OF assms(2)]
    by (simp add: takeWhile_append2)
  moreover have "CHR ''='' \<in> set (p @ d # r) \<longleftrightarrow> CHR ''='' \<in> set r"
    using prefix_no_equals_sign [OF assms(1)] digit_not_equals_sign [OF assms(2)] by auto
  ultimately show ?thesis
    by (simp add: entry_key_eq butlast_append)
qed

lemma existingTrackKey_shape:
  assumes "p \<in> {''File'', ''Length'', ''Title''}" "is_digit d"
  shows "existingTrackKey (p @ d # r) =
           (if CHR ''='' \<in> set r then d # takeWhile (\<lambda>x. x \<noteq> CHR ''='') r
            else if r = [] then p else d # butlast r)"
  using assms
  by (simp add: existingTrackKey_def entry_key_shape search_digit_prefix search_digit_none
      substring_from_drop)

lemma trackPropertyName_shape:
  assumes "p \<in> {''File'', ''Length'', ''Title''}" "is_digit d"
  shows "trackPropertyName (p @ d # r) =
           (if CHR ''='' \<notin> set r \<and> r = [] then [] else camelize p)"
  using assms
  by (simp add: trackPropertyName_def entry_key_shape search_digit_prefix search_digit_none
      substring_0_take camelize_def)

lemma existingTrackKey_not_inherited:
  assumes "TRACK_PROPERTY_MATCHER entry"
  shows "existingTrackKey entry \<notin> set Object_prototype_keys"
proof -
  from assms obtain p d r where s: "p \<in> {''File'', ''Length'', ''Title''}" "is_digit d"
    "entry = p @ d # r" by (rule TRACK_PROPERTY_MATCHER_shape)
  have "d # x \<notin> set Object_prototype_keys" for x
    using s(2) by (auto simp: Object_prototype_keys_def is_digit_def)
  moreover have "p \<notin> set Object_prototype_keys"
    using s(1) by (auto simp: Object_prototype_keys_def)
  ultimately show ?thesis
    unfolding s(3) existingTrackKey_shape [OF s(1,2)] by simp
qed


section \<open>Properties of the loop body\<close>

lemma createdTracks_get_cases:
  assumes "k \<notin> set Object_prototype_keys"
  shows "createdTracks_get created k = (case map_of created k of Some n \<Rightarrow> Own n | None \<Rightarrow> Missing)"
  using assms by (simp add: createdTracks_get_def split: option.splits)

lemma map_of_createdTracks_set:
  "map_of (createdTracks_set k n created) k' = Some m \<Longrightarrow>
     (k' = k \<and> m = n) \<or> map_of created k' = Some m"
  by (auto simp: createdTracks_set_def update_conv' split: if_splits)

text \<open>The callback on a track-property entry, by the state of the record of created tracks.\<close>

lemma process_entry_append:
  assumes "TRACK_PROPERTY_MATCHER entry"
    and "map_of (createdTracks st) (existingTrackKey entry) = None
         \<or> map_of (createdTracks st) (existingTrackKey entry) = Some 0"
  shows "process_entry entry st =
           Inr (st\<lparr>doc := (doc st)\<lparr>tracks := tracks (doc st) @
                       [track_set (trackPropertyName entry) (JStr (entry_value entry)) new_track]\<rparr>,
                   createdTracks := createdTracks_set (existingTrackKey entry)
                       (length (tracks (doc st))) (createdTracks st)\<rparr>)"
  using assms existingTrackKey_not_inherited [OF assms(1)]
  by (auto simp: process_entry_def Let_def createdTracks_get_cases)

lemma process_entry_merge:
  assumes "TRACK_PROPERTY_MATCHER entry"
    and "map_of (createdTracks st) (existingTrackKey entry) = Some n" "0 < n"
    and "n < length (tracks (doc st))"
  shows "process_entry entry st =
           Inr (st\<lparr>doc := (doc st)\<lparr>tracks := (tracks (doc st))
                       [n := track_set (trackPropertyName entry) (JStr (entry_value entry))
                               (tracks (doc st) ! n)]\<rparr>\<rparr>)"
  using assms existingTrackKey_not_inherited [OF assms(1)]
  by (simp add: process_entry_def Let_def createdTracks_get_cases)

lemma camelize_constants:
  "camelize NUMBER_OF_ENTRIES = ''numberofentries''" "camelize VERSION = ''version''"
  by (simp_all add: camelize_def NUMBER_OF_ENTRIES_def VERSION_def lower_initial_def)

lemma process_entry_other:
  assumes "\<not> TRACK_PROPERTY_MATCHER entry"
  shows "process_entry entry st =
           Inr (st\<lparr>doc :=
              (if startsWith entry NUMBER_OF_ENTRIES
               then (doc st)\<lparr>numberofentries := array_get (split_on CHR ''='' entry) 1\<rparr>
               else if startsWith entry VERSION
               then (doc st)\<lparr>version := array_get (split_on CHR ''='' entry) 1\<rparr>
               else doc st)\<rparr>)"
  using assms by (simp add: process_entry_def pls_set_def camelize_constants)

lemma process_entry_total:
  assumes "positions_valid st"
  shows "\<exists>st'. process_entry entry st = Inr st' \<and> positions_valid st'"
proof (cases "TRACK_PROPERTY_MATCHER entry")
  case False
  with assms show ?thesis
    by (simp add: process_entry_other positions_valid_def)
next
  case True
  let ?k = "existingTrackKey entry"
  show ?thesis
  proof (cases "map_of (createdTracks st) ?k = None \<or> map_of (createdTracks st) ?k = Some 0")
    case fresh: True
    have "positions_valid (st\<lparr>doc := (doc st)\<lparr>tracks := tracks (doc st) @
                       [track_set (trackPropertyName entry) (JStr (entry_value entry)) new_track]\<rparr>,
                   createdTracks := createdTracks_set ?k
                       (length (tracks (doc st))) (createdTracks st)\<rparr>)"
      using assms unfolding positions_valid_def
      by (auto dest!: map_of_createdTracks_set intro: less_SucI)
    with process_entry_append [OF True fresh] show ?thesis by simp
  next
    case False
    then obtain n where n: "map_of (createdTracks st) ?k = Some n" "0 < n" by auto
    with assms have lt: "n < length (tracks (doc st))" by (simp add: positions_valid_def)
    from assms have "positions_valid (st\<lparr>doc := (doc st)\<lparr>tracks := (tracks (doc st))
                       [n := track_set (trackPropertyName entry) (JStr (entry_value entry))
                               (tracks (doc st) ! n)]\<rparr>\<rparr>)"
      by (simp add: positions_valid_def)
    with process_entry_merge [OF True n lt] show ?thesis by simp
  qed
qed

lemma forEach_total:
  "positions_valid st \<Longrightarrow> \<exists>st'. forEach entries st = Inr st' \<and> positions_valid st'"
proof (induction entries arbitrary: st)
  case Nil
  then show ?case by simp
next
  case (Cons entry entries)
  from process_entry_total [OF Cons.prems, of entry] obtain st1
    where "process_entry entry st = Inr st1" "positions_valid st1" by blast
  with Cons.IH [of st1] show ?case by simp
qed

lemma forEach_append:
  "forEach (xs @ ys) st = (case forEach xs st of Inl e \<Rightarrow> Inl e | Inr st' \<Rightarrow> forEach ys st')"
  by (induction xs arbitrary: st) (auto split: sum.splits)

lemma startsWith_hd: "startsWith s p \<Longrightarrow> p \<noteq> [] \<Longrightarrow> s \<noteq> [] \<and> hd s = hd p"
  unfolding startsWith_def by (cases s; cases p) auto

lemma TRACK_PROPERTY_MATCHER_hd:
  assumes "TRACK_PROPERTY_MATCHER entry"
  shows "hd entry \<in> {CHR ''F'', CHR ''L'', CHR ''T''}"
proof -
  from assms obtain p d r where "p \<in> {''File'', ''Length'', ''Title''}" "entry = p @ d # r"
    by (rule TRACK_PROPERTY_MATCHER_shape)
  then show ?thesis by auto
qed

lemma NUMBER_OF_ENTRIES_not_track:
  assumes "startsWith entry NUMBER_OF_ENTRIES"
  shows "\<not> TRACK_PROPERTY_MATCHER entry"
  using startsWith_hd [OF assms] TRACK_PROPERTY_MATCHER_hd [of entry]
  by (auto simp: NUMBER_OF_ENTRIES_def)

lemma VERSION_not_track:
  assumes "startsWith entry VERSION"
  shows "\<not> TRACK_PROPERTY_MATCHER entry" "\<not> startsWith entry NUMBER_OF_ENTRIES"
  using startsWith_hd [OF assms] TRACK_PROPERTY_MATCHER_hd [of entry]
    startsWith_hd [of entry NUMBER_OF_ENTRIES]
  by (auto simp: NUMBER_OF_ENTRIES_def VERSION_def)

lemma split_on_unfold:
  "split_on c s = takeWhile (\<lambda>x. x \<noteq> c) s #
     (if c \<in> set s then split_on c (tl (dropWhile (\<lambda>x. x \<noteq> c) s)) else [])"
  by (induction s) (auto split: list.splits)

lemma split_on_second:
  "array_get (split_on c s) (Suc 0) =
     (if c \<in> set s then JStr (takeWhile (\<lambda>x. x \<noteq> c) (tl (dropWhile (\<lambda>x. x \<noteq> c) s)))
      else JUndefined)"
proof (cases "c \<in> set s")
  case True
  let ?rest = "tl (dropWhile (\<lambda>x. x \<noteq> c) s)"
  have "split_on c s = takeWhile (\<lambda>x. x \<noteq> c) s # split_on c ?rest"
    using True by (subst split_on_unfold) simp
  moreover have "\<exists>ps. split_on c ?rest = takeWhile (\<lambda>x. x \<noteq> c) ?rest # ps"
    by (subst split_on_unfold) simp
  ultimately show ?thesis using True by (auto simp: array_get_def)
next
  case False
  then have "split_on c s = [takeWhile (\<lambda>x. x \<noteq> c) s]"
    by (subst split_on_unfold) simp
  with False show ?thesis by (simp add: array_get_def)
qed

text \<open>The equations that evaluate the parser on a concrete document.\<close>

lemmas eval_simps =
  plsParser_def plsParts_def unshift_def startsWith_def process_entry_def
  TRACK_PROPERTY_MATCHER_def is_digit_def entry_key_eq entry_value_eq
  trackPropertyName_def existingTrackKey_def search_digit_def substring_0_take
  substring_from_drop camelize_def lower_initial_def createdTracks_get_def
  createdTracks_set_def Object_prototype_keys_def track_set_def new_track_def
  initial_pls_def PLAYLIST_TYPE_def NUMBER_OF_ENTRIES_def VERSION_def pls_set_def array_get_def
  Let_def

lemma existingTrackKey_not_proto:
  "TRACK_PROPERTY_MATCHER entry \<Longrightarrow> existingTrackKey entry \<noteq> ''__proto__''"
  using existingTrackKey_not_inherited [of entry] by (auto simp: Object_prototype_keys_def)

lemma createdTracks_set_track:
  "TRACK_PROPERTY_MATCHER entry \<Longrightarrow>
     createdTracks_set (existingTrackKey entry) n created = AList.update (existingTrackKey entry) n created"
  by (simp add: createdTracks_set_def existingTrackKey_not_proto)

text \<open>A run of entries for a suffix recorded at a position other than \<open>0\<close> merges into that track.\<close>

lemma forEach_merge_run:
  assumes "\<forall>e\<in>set es. TRACK_PROPERTY_MATCHER e \<and> existingTrackKey e = k"
    and "map_of (createdTracks st) k = Some n" "0 < n" "n < length (tracks (doc st))"
  shows "forEach es st =
           Inr (st\<lparr>doc := (doc st)\<lparr>tracks := (tracks (doc st))
                  [n := fold (\<lambda>e. track_set (trackPropertyName e) (JStr (entry_value e))) es
                          (tracks (doc st) ! n)]\<rparr>\<rparr>)"
  using assms
proof (induction es arbitrary: st)
  case Nil
  then show ?case by simp
next
  case (Cons e es)
  let ?st1 = "st\<lparr>doc := (doc st)\<lparr>tracks := (tracks (doc st))
                  [n := track_set (trackPropertyName e) (JStr (entry_value e)) (tracks (doc st) ! n)]\<rparr>\<rparr>"
  from Cons.prems have e: "TRACK_PROPERTY_MATCHER e" "existingTrackKey e = k" by simp_all
  have step: "process_entry e st = Inr ?st1"
    using process_entry_merge [OF e(1), of st n] Cons.prems e(2) by simp
  have "forEach es ?st1 =
           Inr (?st1\<lparr>doc := (doc ?st1)\<lparr>tracks := (tracks (doc ?st1))
                  [n := fold (\<lambda>e. track_set (trackPropertyName e) (JStr (entry_value e))) es
                          (tracks (doc ?st1) ! n)]\<rparr>\<rparr>)"
    using Cons.prems by (intro Cons.IH) simp_all
  with step Cons.prems(4) show ?case by simp
qed

lemma process_entry_keys:
  assumes "process_entry e st = Inr st'" and "map_of (createdTracks st') k = Some n"
  shows "map_of (createdTracks st) k = Some n \<or> (TRACK_PROPERTY_MATCHER e \<and> existingTrackKey e = k)"
proof (cases "TRACK_PROPERTY_MATCHER e")
  case False
  with assms show ?thesis by (auto simp: process_entry_other)
next
  case True
  with assms show ?thesis
    by (auto simp: process_entry_def Let_def dest: map_of_createdTracks_set
        split: if_splits sum.splits)
qed

lemma forEach_keys:
  assumes "forEach es st = Inr st'" and "map_of (createdTracks st') k = Some n"
  shows "(\<exists>m. map_of (createdTracks st) k = Some m) \<or>
         (\<exists>e\<in>set es. TRACK_PROPERTY_MATCHER e \<and> existingTrackKey e = k)"
  using assms
proof (induction es arbitrary: st)
  case Nil
  then show ?case by auto
next
  case (Cons e es)
  from Cons.prems(1) obtain st1 where st1: "process_entry e st = Inr st1" "forEach es st1 = Inr st'"
    by (auto split: sum.splits)
  from Cons.IH [OF st1(2) Cons.prems(2)] show ?case
  proof
    assume "\<exists>m. map_of (createdTracks st1) k = Some m"
    then obtain m where "map_of (createdTracks st1) k = Some m" ..
    from process_entry_keys [OF st1(1) this] show ?thesis by auto
  next
    assume "\<exists>e\<in>set es. TRACK_PROPERTY_MATCHER e \<and> existingTrackKey e = k"
    then show ?thesis by auto
  qed
qed

text \<open>Entries of other suffixes leave the track at a position owned by suffix \<open>k\<close> alone.\<close>

lemma process_entry_owns:
  assumes "positions_valid st" and "owns k p st"
    and "TRACK_PROPERTY_MATCHER e \<longrightarrow> existingTrackKey e \<noteq> k"
  shows "\<exists>st'. process_entry e st = Inr st' \<and> positions_valid st' \<and> owns k p st' \<and>
               tracks (doc st') ! p = tracks (doc st) ! p"
proof (cases "TRACK_PROPERTY_MATCHER e")
  case False
  with assms(1,2) show ?thesis
    by (simp add: process_entry_other positions_valid_def owns_def)
next
  case True
  let ?ke = "existingTrackKey e"
  let ?t = "track_set (trackPropertyName e) (JStr (entry_value e))"
  from True assms(3) have ne: "?ke \<noteq> k" by simp
  show ?thesis
  proof (cases "map_of (createdTracks st) ?ke = None \<or> map_of (createdTracks st) ?ke = Some 0")
    case fresh: True
    let ?st' = "st\<lparr>doc := (doc st)\<lparr>tracks := tracks (doc st) @ [?t new_track]\<rparr>,
                   createdTracks := createdTracks_set ?ke (length (tracks (doc st))) (createdTracks st)\<rparr>"
    have "positions_valid ?st'"
      using assms(1) unfolding positions_valid_def
      by (auto dest!: map_of_createdTracks_set intro: less_SucI)
    moreover have "owns k p ?st'"
      using assms(2) unfolding owns_def
      by (auto dest!: map_of_createdTracks_set)
    moreover have "tracks (doc ?st') ! p = tracks (doc st) ! p"
      using assms(2) by (simp add: owns_def nth_append)
    ultimately show ?thesis
      using process_entry_append [OF True fresh] by simp
  next
    case False
    then obtain n where n: "map_of (createdTracks st) ?ke = Some n" "0 < n" by auto
    with assms(1) have lt: "n < length (tracks (doc st))" by (simp add: positions_valid_def)
    from n(1) ne assms(2) have np: "n \<noteq> p" by (auto simp: owns_def)
    let ?st' = "st\<lparr>doc := (doc st)\<lparr>tracks := (tracks (doc st))[n := ?t (tracks (doc st) ! n)]\<rparr>\<rparr>"
    have "positions_valid ?st'" using assms(1) by (simp add: positions_valid_def)
    moreover have "owns k p ?st'" using assms(2) by (simp add: owns_def)
    moreover have "tracks (doc ?st') ! p = tracks (doc st) ! p" using np by simp
    ultimately show ?thesis
      using process_entry_merge [OF True n lt] by simp
  qed
qed

lemma forEach_owns:
  assumes "positions_valid st" and "owns k p st"
    and "\<forall>e\<in>set es. TRACK_PROPERTY_MATCHER e \<longrightarrow> existingTrackKey e \<noteq> k"
  shows "\<exists>st'. forEach es st = Inr st' \<and> p < length (tracks (doc st')) \<and>
               tracks (doc st') ! p = tracks (doc st) ! p"
  using assms
proof (induction es arbitrary: st)
  case Nil
  then show ?case by (simp add: owns_def)
next
  case (Cons e es)
  from Cons.prems(3) have e: "TRACK_PROPERTY_MATCHER e \<longrightarrow> existingTrackKey e \<noteq> k"
    and es: "\<forall>e\<in>set es. TRACK_PROPERTY_MATCHER e \<longrightarrow> existingTrackKey e \<noteq> k" by simp_all
  from process_entry_owns [OF Cons.prems(1,2) e] obtain st1
    where st1: "process_entry e st = Inr st1" "positions_valid st1" "owns k p st1"
      "tracks (doc st1) ! p = tracks (doc st) ! p" by blast
  from Cons.IH [OF st1(2,3) es] st1(1,4) show ?case by simp
qed

lemma title_entry_name:
  assumes "TRACK_PROPERTY_MATCHER entry" and "startsWith entry ''Title''"
    and "CHR ''='' \<in> set entry"
  shows "trackPropertyName entry = ''title''"
proof -
  from assms(1) obtain p d r where s: "p \<in> {''File'', ''Length'', ''Title''}" "is_digit d"
    "entry = p @ d # r" by (rule TRACK_PROPERTY_MATCHER_shape)
  from startsWith_hd [OF assms(2)] s(1,3) have p: "p = ''Title''" by auto
  from assms(3) s(3) p digit_not_equals_sign [OF s(2)] have "CHR ''='' \<in> set r" by auto
  then show ?thesis
    unfolding s(3) trackPropertyName_shape [OF s(1,2)]
    by (auto simp: p camelize_def lower_initial_def)
qed

lemma split_on_hd: "hd (split_on c s) = takeWhile (\<lambda>x. x \<noteq> c) s"
  by (subst split_on_unfold) simp

text \<open>
  Leaving the header entry in the array does not change the outcome: an entry that starts
  with \<^verbatim>\<open>[\<close> matches none of the rules.
\<close>

lemma header_entry_has_no_effect:
  assumes "startsWith rawPls ''[playlist]''"
  shows "forEach (plsParts rawPls) st = forEach (tl (plsParts rawPls)) st"
proof -
  from startsWith_hd [OF assms] obtain r where raw: "rawPls = CHR ''['' # r"
    by (cases rawPls) auto
  let ?first = "takeWhile (\<lambda>x. x \<noteq> CHR ''\<newline>'') rawPls"
  have "\<exists>rest. plsParts rawPls = ?first # rest"
    unfolding plsParts_def unshift_def by (subst split_on_unfold) simp
  then obtain rest where parts: "plsParts rawPls = ?first # rest" ..
  have hd: "?first \<noteq> [] \<and> hd ?first = CHR ''[''" by (simp add: raw)
  have "\<not> TRACK_PROPERTY_MATCHER ?first"
    using TRACK_PROPERTY_MATCHER_hd [of ?first] hd by auto
  moreover have "\<not> startsWith ?first NUMBER_OF_ENTRIES" "\<not> startsWith ?first VERSION"
    using startsWith_hd [of ?first NUMBER_OF_ENTRIES] startsWith_hd [of ?first VERSION] hd
    by (auto simp: NUMBER_OF_ENTRIES_def VERSION_def)
  ultimately have "process_entry ?first st = Inr st"
    by (simp add: process_entry_other)
  then show ?thesis by (simp add: parts)
qed

section \<open>Properties of the parser\<close>

subsection \<open>Merging of entries with the same index suffix\<close>

text \<open>
  Claim C1 says that two entries with the same index suffix always end in one track, the
  later value winning. On \<^verbatim>\<open>File1=a.mp3\<close> followed by \<^verbatim>\<open>File1=b.mp3\<close> the parser returns
  two tracks: the first track is recorded at position \<open>0\<close>, which the test
  \<^verbatim>\<open>if (createdTracks[existingTrackKey])\<close> takes for absent.
\<close>

theorem duplicate_suffix_two_tracks:
  "plsParser ''[playlist]\<newline>File1=a.mp3\<newline>File1=b.mp3'' =
     Inr (\<lparr>numberofentries = JNum 0, playlistType = ''pls'',
           tracks = [\<lparr>file = JStr ''a.mp3'', length' = JNum (- 1), title = JStr [], other = []\<rparr>,
                     \<lparr>file = JStr ''b.mp3'', length' = JNum (- 1), title = JStr [], other = []\<rparr>],
           version = JNum 2\<rparr>, [])"
  by (simp add: eval_simps)

text \<open>
  Claim C10. In a parse that has created no track yet, the first track-property entry
  \<open>e1\<close> creates a track recorded at position \<open>0\<close>; a second entry \<open>e2\<close> with the same
  suffix appends a fresh track and records the suffix again, at position \<open>1\<close>; every
  further entry of that suffix merges into this second track. In any state, an entry whose
  suffix is recorded at position \<open>0\<close> appends a fresh track and records the suffix at the
  new position, which is not \<open>0\<close>; an entry whose suffix is recorded at a position
  \<open>n \<ge> 1\<close> merges into the track at \<open>n\<close>.
\<close>

theorem first_track_suffix_not_merged:
  assumes "TRACK_PROPERTY_MATCHER e1" and "TRACK_PROPERTY_MATCHER e2"
    and "existingTrackKey e2 = existingTrackKey e1"
    and "\<forall>e\<in>set es. TRACK_PROPERTY_MATCHER e \<and> existingTrackKey e = existingTrackKey e1"
    and "tracks (doc st) = []" and "createdTracks st = []"
  shows "forEach [e1] st =
           Inr (st\<lparr>doc := (doc st)\<lparr>tracks :=
                     [track_set (trackPropertyName e1) (JStr (entry_value e1)) new_track]\<rparr>,
                   createdTracks := [(existingTrackKey e1, 0)]\<rparr>) \<and>
         forEach [e1, e2] st =
           Inr (st\<lparr>doc := (doc st)\<lparr>tracks :=
                     [track_set (trackPropertyName e1) (JStr (entry_value e1)) new_track,
                      track_set (trackPropertyName e2) (JStr (entry_value e2)) new_track]\<rparr>,
                   createdTracks := [(existingTrackKey e1, 1)]\<rparr>) \<and>
         forEach (e1 # e2 # es) st =
           Inr (st\<lparr>doc := (doc st)\<lparr>tracks :=
                     [track_set (trackPropertyName e1) (JStr (entry_value e1)) new_track,
                      fold (\<lambda>e. track_set (trackPropertyName e) (JStr (entry_value e))) es
                        (track_set (trackPropertyName e2) (JStr (entry_value e2)) new_track)]\<rparr>,
                   createdTracks := [(existingTrackKey e1, 1)]\<rparr>) \<and>
         (\<forall>s. map_of (createdTracks s) (existingTrackKey e1) = Some 0 \<and> tracks (doc s) \<noteq> [] \<longrightarrow>
            0 < length (tracks (doc s)) \<and>
            process_entry e2 s =
              Inr (s\<lparr>doc := (doc s)\<lparr>tracks := tracks (doc s) @
                         [track_set (trackPropertyName e2) (JStr (entry_value e2)) new_track]\<rparr>,
                     createdTracks := AList.update (existingTrackKey e1) (length (tracks (doc s)))
                         (createdTracks s)\<rparr>)) \<and>
         (\<forall>s n. map_of (createdTracks s) (existingTrackKey e1) = Some n \<and> 0 < n \<and>
                 n < length (tracks (doc s)) \<longrightarrow>
            process_entry e2 s =
              Inr (s\<lparr>doc := (doc s)\<lparr>tracks := (tracks (doc s))
                     [n := track_set (trackPropertyName e2) (JStr (entry_value e2))
                             (tracks (doc s) ! n)]\<rparr>\<rparr>))"
proof -
  let ?k = "existingTrackKey e1"
  let ?t1 = "track_set (trackPropertyName e1) (JStr (entry_value e1)) new_track"
  let ?t2 = "track_set (trackPropertyName e2) (JStr (entry_value e2)) new_track"
  let ?st1 = "st\<lparr>doc := (doc st)\<lparr>tracks := [?t1]\<rparr>, createdTracks := [(?k, 0)]\<rparr>"
  let ?st2 = "st\<lparr>doc := (doc st)\<lparr>tracks := [?t1, ?t2]\<rparr>, createdTracks := [(?k, 1)]\<rparr>"
  have s1: "process_entry e1 st = Inr ?st1"
    using process_entry_append [OF assms(1), of st] assms(5,6)
    by (simp add: createdTracks_set_track [OF assms(1)])
  have s2: "process_entry e2 ?st1 = Inr ?st2"
    using process_entry_append [OF assms(2), of ?st1] assms(3)
    by (simp add: createdTracks_set_track [OF assms(1)])
  have s3: "forEach es ?st2 =
      Inr (?st2\<lparr>doc := (doc ?st2)\<lparr>tracks := (tracks (doc ?st2))
             [1 := fold (\<lambda>e. track_set (trackPropertyName e) (JStr (entry_value e))) es
                     (tracks (doc ?st2) ! 1)]\<rparr>\<rparr>)"
    using assms(4) by (intro forEach_merge_run [where k = ?k]) simp_all
  have a: "forEach [e1] st = Inr ?st1" using s1 by simp
  have b: "forEach [e1, e2] st = Inr ?st2" using s1 s2 by simp
  have c: "forEach (e1 # e2 # es) st =
      Inr (st\<lparr>doc := (doc st)\<lparr>tracks :=
             [?t1, fold (\<lambda>e. track_set (trackPropertyName e) (JStr (entry_value e))) es ?t2]\<rparr>,
           createdTracks := [(?k, 1)]\<rparr>)"
    using s1 s2 s3 by simp
  have d: "\<forall>s n. map_of (createdTracks s) ?k = Some n \<and> 0 < n \<and> n < length (tracks (doc s)) \<longrightarrow>
            process_entry e2 s =
              Inr (s\<lparr>doc := (doc s)\<lparr>tracks := (tracks (doc s))
                     [n := track_set (trackPropertyName e2) (JStr (entry_value e2))
                             (tracks (doc s) ! n)]\<rparr>\<rparr>)"
    using process_entry_merge [OF assms(2)] assms(3) by simp
  have e: "\<forall>s. map_of (createdTracks s) ?k = Some 0 \<and> tracks (doc s) \<noteq> [] \<longrightarrow>
            0 < length (tracks (doc s)) \<and>
            process_entry e2 s =
              Inr (s\<lparr>doc := (doc s)\<lparr>tracks := tracks (doc s) @ [?t2]\<rparr>,
                     createdTracks := AList.update ?k (length (tracks (doc s))) (createdTracks s)\<rparr>)"
    using process_entry_append [OF assms(2)] assms(3)
    by (simp add: createdTracks_set_track [OF assms(1)])
  from a b c d e show ?thesis by blast
qed

theorem first_track_suffix_not_merged_witness:
  "TRACK_PROPERTY_MATCHER ''File1=a'' \<and> TRACK_PROPERTY_MATCHER ''Title1=b'' \<and>
   existingTrackKey ''Title1=b'' = existingTrackKey ''File1=a'' \<and>
   TRACK_PROPERTY_MATCHER ''Length1=3'' \<and>
   existingTrackKey ''Length1=3'' = existingTrackKey ''File1=a'' \<and>
   forEach [''File1=a''] \<lparr>doc = initial_pls, createdTracks = []\<rparr> =
     Inr \<lparr>doc = initial_pls\<lparr>tracks :=
            [\<lparr>file = JStr ''a'', length' = JNum (- 1), title = JStr [], other = []\<rparr>]\<rparr>,
          createdTracks = [(''1'', 0)]\<rparr> \<and>
   forEach [''File1=a'', ''Title1=b''] \<lparr>doc = initial_pls, createdTracks = []\<rparr> =
     Inr \<lparr>doc = initial_pls\<lparr>tracks :=
            [\<lparr>file = JStr ''a'', length' = JNum (- 1), title = JStr [], other = []\<rparr>,
             \<lparr>file = JStr [], length' = JNum (- 1), title = JStr ''b'', other = []\<rparr>]\<rparr>,
          createdTracks = [(''1'', 1)]\<rparr> \<and>
   forEach [''File1=a'', ''Title1=b'', ''Length1=3''] \<lparr>doc = initial_pls, createdTracks = []\<rparr> =
     Inr \<lparr>doc = initial_pls\<lparr>tracks :=
            [\<lparr>file = JStr ''a'', length' = JNum (- 1), title = JStr [], other = []\<rparr>,
             \<lparr>file = JStr [], length' = JStr ''3'', title = JStr ''b'', other = []\<rparr>]\<rparr>,
          createdTracks = [(''1'', 1)]\<rparr> \<and>
   forEach [''File1=a'', ''File2=b'', ''Title1=c'', ''Length1=3'']
       \<lparr>doc = initial_pls, createdTracks = []\<rparr> =
     Inr \<lparr>doc = initial_pls\<lparr>tracks :=
            [\<lparr>file = JStr ''a'', length' = JNum (- 1), title = JStr [], other = []\<rparr>,
             \<lparr>file = JStr ''b'', length' = JNum (- 1), title = JStr [], other = []\<rparr>,
             \<lparr>file = JStr [], length' = JStr ''3'', title = JStr ''c'', other = []\<rparr>]\<rparr>,
          createdTracks = [(''1'', 2), (''2'', 1)]\<rparr>"
  using first_track_suffix_not_merged [of "''File1=a''" "''Title1=b''" "[''Length1=3'']"
      "\<lparr>doc = initial_pls, createdTracks = []\<rparr>"]
  by (simp add: eval_simps)

subsection \<open>The example document of the specification\<close>

text \<open>
  Claim C2 gives the result for the example document of the specification: two tracks and
  \<^verbatim>\<open>numberOfEntries = '2'\<close>. The parser returns three tracks (\<^verbatim>\<open>Title1\<close> and
  \<^verbatim>\<open>Length1\<close> go to a second track for suffix \<open>1\<close>) and leaves the entry count at \<open>0\<close>,
  since \<^verbatim>\<open>NumberOfEntries\<close> does not start with \<^verbatim>\<open>Numberofentries\<close>; only the version is
  as claimed.
\<close>

theorem spec_example_three_tracks:
  "plsParser ''[playlist]\<newline>File1=track1.mp3\<newline>Title1=Song One\<newline>Length1=180\<newline>File2=track2.mp3\<newline>NumberOfEntries=2\<newline>Version=2'' =
     Inr (\<lparr>numberofentries = JNum 0, playlistType = ''pls'',
           tracks = [\<lparr>file = JStr ''track1.mp3'', length' = JNum (- 1), title = JStr [], other = []\<rparr>,
                     \<lparr>file = JStr [], length' = JStr ''180'', title = JStr ''Song One'', other = []\<rparr>,
                     \<lparr>file = JStr ''track2.mp3'', length' = JNum (- 1), title = JStr [], other = []\<rparr>],
           version = JStr ''2''\<rparr>, [])"
  by (simp add: eval_simps)

subsection \<open>The header check\<close>

text \<open>
  Claim C3. For the empty string and for every string that does not start with
  \<^verbatim>\<open>[playlist]\<close>, the parser logs exactly one diagnostic, which carries the raw input,
  and returns the default document without looking at any line.
\<close>

theorem plsParser_invalid_header:
  assumes "rawPls = [] \<or> \<not> startsWith rawPls ''[playlist]''"
  shows "plsParser rawPls =
           Inr (\<lparr>numberofentries = JNum 0, playlistType = ''pls'', tracks = [], version = JNum 2\<rparr>,
                [(''Invalid pls file.  Received: '', rawPls)])"
proof -
  from assms have "\<not> startsWith rawPls ''[playlist]''"
    by (auto simp: startsWith_def)
  then show ?thesis
    by (simp add: plsParser_def initial_pls_def PLAYLIST_TYPE_def)
qed

theorem plsParser_invalid_header_witness:
  "([] = [] \<or> \<not> startsWith [] ''[playlist]'') \<and>
   plsParser [] =
     Inr (\<lparr>numberofentries = JNum 0, playlistType = ''pls'', tracks = [], version = JNum 2\<rparr>,
          [(''Invalid pls file.  Received: '', [])]) \<and>
   (''File1=a.mp3'' = [] \<or> \<not> startsWith ''File1=a.mp3'' ''[playlist]'') \<and>
   plsParser ''File1=a.mp3'' =
     Inr (\<lparr>numberofentries = JNum 0, playlistType = ''pls'', tracks = [], version = JNum 2\<rparr>,
          [(''Invalid pls file.  Received: '', ''File1=a.mp3'')])"
  using plsParser_invalid_header [of "[]"] plsParser_invalid_header [of "''File1=a.mp3''"]
  by (simp add: startsWith_def)

subsection \<open>No exception\<close>

text \<open>
  Claim C4. For every input string, however malformed, \<^verbatim>\<open>plsParser\<close> returns a
  document: it never raises. (The logger is taken to return normally.)
\<close>

theorem plsParser_never_throws: "\<exists>d log. plsParser rawPls = Inr (d, log)"
proof (cases "startsWith rawPls ''[playlist]''")
  case False
  then show ?thesis by (simp add: plsParser_def)
next
  case True
  have "positions_valid \<lparr>doc = initial_pls, createdTracks = []\<rparr>"
    by (simp add: positions_valid_def)
  from forEach_total [OF this, of "plsParts rawPls"] obtain st'
    where "forEach (plsParts rawPls) \<lparr>doc = initial_pls, createdTracks = []\<rparr> = Inr st'" by blast
  with True show ?thesis by (simp add: plsParser_def)
qed

subsection \<open>The header entry\<close>

text \<open>
  Claim C5 says that one leading element is removed from the entries before the loop.
  \<^verbatim>\<open>plsParts.unshift()\<close> removes nothing: the header is still the first entry iterated.
\<close>

theorem header_entry_not_removed:
  "split_on CHR ''\<newline>'' ''[playlist]\<newline>File1=a.mp3'' = [''[playlist]'', ''File1=a.mp3''] \<and>
   plsParts ''[playlist]\<newline>File1=a.mp3'' = [''[playlist]'', ''File1=a.mp3'']"
  by (simp add: plsParts_def unshift_def)

subsection \<open>The metadata entries\<close>

text \<open>
  Claim C6 says that the metadata value is everything after the first \<^verbatim>\<open>=\<close>. The code
  takes the second piece of \<^verbatim>\<open>entry.split('=')\<close>, which stops at the next \<^verbatim>\<open>=\<close>: for
  \<^verbatim>\<open>Numberofentries=2=3\<close> it stores \<^verbatim>\<open>2\<close>, not \<^verbatim>\<open>2=3\<close>.
\<close>

theorem metadata_value_counterexample:
  "startsWith ''Numberofentries=2=3'' ''Numberofentries'' \<and>
   entry_value ''Numberofentries=2=3'' = ''2=3'' \<and>
   process_entry ''Numberofentries=2=3'' \<lparr>doc = initial_pls, createdTracks = []\<rparr>
     = Inr \<lparr>doc = initial_pls\<lparr>numberofentries := JStr ''2''\<rparr>, createdTracks = []\<rparr> \<and>
   JStr ''2'' \<noteq> JStr ''2=3''"
  by (simp add: process_entry_def TRACK_PROPERTY_MATCHER_def startsWith_def entry_value_eq
      NUMBER_OF_ENTRIES_def camelize_constants [unfolded NUMBER_OF_ENTRIES_def] pls_set_def array_get_def)

text \<open>
  Claim C6, amended. For an entry with the prefix \<^verbatim>\<open>Numberofentries\<close> (likewise
  \<^verbatim>\<open>Version\<close>) the field receives the text between the first \<^verbatim>\<open>=\<close> and the next
  \<^verbatim>\<open>=\<close> (or the end of the entry), and \<^verbatim>\<open>undefined\<close> when the entry has no \<^verbatim>\<open>=\<close>.
\<close>

theorem metadata_value_second_piece:
  "(startsWith entry ''Numberofentries'' \<longrightarrow>
      process_entry entry st =
        Inr (st\<lparr>doc := (doc st)\<lparr>numberofentries :=
               (if CHR ''='' \<in> set entry
                then JStr (takeWhile (\<lambda>c. c \<noteq> CHR ''='') (entry_value entry))
                else JUndefined)\<rparr>\<rparr>)) \<and>
   (startsWith entry ''Version'' \<longrightarrow>
      process_entry entry st =
        Inr (st\<lparr>doc := (doc st)\<lparr>version :=
               (if CHR ''='' \<in> set entry
                then JStr (takeWhile (\<lambda>c. c \<noteq> CHR ''='') (entry_value entry))
                else JUndefined)\<rparr>\<rparr>))"
  using NUMBER_OF_ENTRIES_not_track [of entry] VERSION_not_track [of entry]
  by (auto simp: process_entry_other split_on_second entry_value_eq
      NUMBER_OF_ENTRIES_def [symmetric] VERSION_def [symmetric])

theorem metadata_value_second_piece_witness:
  "startsWith ''Numberofentries=2=3'' ''Numberofentries'' \<and>
   process_entry ''Numberofentries=2=3'' \<lparr>doc = initial_pls, createdTracks = []\<rparr>
     = Inr \<lparr>doc = initial_pls\<lparr>numberofentries := JStr ''2''\<rparr>, createdTracks = []\<rparr> \<and>
   startsWith ''Version'' ''Version'' \<and>
   process_entry ''Version'' \<lparr>doc = initial_pls, createdTracks = []\<rparr>
     = Inr \<lparr>doc = initial_pls\<lparr>version := JUndefined\<rparr>, createdTracks = []\<rparr>"
  using metadata_value_second_piece [of "''Numberofentries=2=3''" "\<lparr>doc = initial_pls, createdTracks = []\<rparr>"]
    metadata_value_second_piece [of "''Version''" "\<lparr>doc = initial_pls, createdTracks = []\<rparr>"]
  by (simp add: startsWith_def entry_value_eq)

subsection \<open>Track-property entries without an equals sign\<close>

text \<open>
  Claim C7 says that for a track-property entry without \<^verbatim>\<open>=\<close> the key is the whole
  entry. \<^verbatim>\<open>entry.slice(0, -1)\<close> drops the last character: the key of \<^verbatim>\<open>File12\<close> is
  \<^verbatim>\<open>File1\<close>.
\<close>

theorem key_without_equals_counterexample:
  "TRACK_PROPERTY_MATCHER ''File12'' \<and> CHR ''='' \<notin> set ''File12'' \<and>
   entry_key ''File12'' = ''File1'' \<and> entry_key ''File12'' \<noteq> ''File12'' \<and>
   entry_value ''File12'' = ''File12''"
  by (simp add: TRACK_PROPERTY_MATCHER_def startsWith_def is_digit_def entry_key_eq entry_value_eq)

text \<open>
  Claim C7, amended. For a track-property entry without \<^verbatim>\<open>=\<close> the key is the entry
  without its last character, and the value is the whole entry.
\<close>

theorem key_without_equals:
  assumes "TRACK_PROPERTY_MATCHER entry" and "CHR ''='' \<notin> set entry"
  shows "entry_key entry = butlast entry \<and> entry_value entry = entry"
  using assms(2) by (simp add: entry_key_eq entry_value_eq)

theorem key_without_equals_witness:
  "TRACK_PROPERTY_MATCHER ''Title7'' \<and> CHR ''='' \<notin> set ''Title7'' \<and>
   entry_key ''Title7'' = ''Title'' \<and> entry_value ''Title7'' = ''Title7''"
  using key_without_equals [of "''Title7''"]
  by (simp add: TRACK_PROPERTY_MATCHER_def startsWith_def is_digit_def)

subsection \<open>A track with a title only\<close>

text \<open>
  Claim C8 says that a suffix seen on one line only, a \<^verbatim>\<open>Title\<close> line, gives the track
  \<^verbatim>\<open>{file: '', length: -1, title: X}\<close>. The suffix the code computes for an entry without
  \<^verbatim>\<open>=\<close> comes from the key without its last character: \<^verbatim>\<open>File55\<close> is taken for a
  \<^verbatim>\<open>File\<close> entry of suffix \<open>5\<close> and sets the file of the track of \<^verbatim>\<open>Title5=X\<close>.
\<close>

theorem title_only_track_counterexample:
  "existingTrackKey ''Title5=X'' = ''5'' \<and> existingTrackKey ''File55'' = ''5'' \<and>
   plsParser ''[playlist]\<newline>File1=a\<newline>Title5=X\<newline>File55'' =
     Inr (\<lparr>numberofentries = JNum 0, playlistType = ''pls'',
           tracks = [\<lparr>file = JStr ''a'', length' = JNum (- 1), title = JStr [], other = []\<rparr>,
                     \<lparr>file = JStr ''File55'', length' = JNum (- 1), title = JStr ''X'', other = []\<rparr>],
           version = JNum 2\<rparr>, [])"
  by (simp add: eval_simps)

text \<open>
  Claim C8, amended. When the suffix that the code computes for a \<^verbatim>\<open>Title\<close> entry with an
  \<^verbatim>\<open>=\<close> is computed for no other track-property entry of the document, the parser returns
  a document whose track at the position given by the number of tracks created by the
  earlier entries is \<^verbatim>\<open>{file: '', length: -1, title: X}\<close>, where \<open>X\<close> is the text after
  the first \<^verbatim>\<open>=\<close>.
\<close>

theorem title_only_track:
  assumes "startsWith rawPls ''[playlist]''"
    and "plsParts rawPls = pre @ entry # post"
    and "TRACK_PROPERTY_MATCHER entry" and "startsWith entry ''Title''"
    and "CHR ''='' \<in> set entry"
    and "\<forall>e\<in>set (pre @ post). TRACK_PROPERTY_MATCHER e \<longrightarrow> existingTrackKey e \<noteq> existingTrackKey entry"
  shows "\<exists>st1 d. forEach pre \<lparr>doc = initial_pls, createdTracks = []\<rparr> = Inr st1 \<and>
           plsParser rawPls = Inr (d, []) \<and>
           length (tracks (doc st1)) < length (tracks d) \<and>
           tracks d ! length (tracks (doc st1)) =
             \<lparr>file = JStr [], length' = JNum (- 1), title = JStr (entry_value entry), other = []\<rparr>"
proof -
  let ?st0 = "\<lparr>doc = initial_pls, createdTracks = []\<rparr>"
  let ?k = "existingTrackKey entry"
  let ?T = "\<lparr>file = JStr [], length' = JNum (- 1), title = JStr (entry_value entry), other = []\<rparr>"
  have v0: "positions_valid ?st0" by (simp add: positions_valid_def)
  from forEach_total [OF v0, of pre] obtain st1
    where st1: "forEach pre ?st0 = Inr st1" "positions_valid st1" by blast
  let ?p = "length (tracks (doc st1))"
  have none: "map_of (createdTracks st1) ?k = None"
  proof (rule ccontr)
    assume "map_of (createdTracks st1) ?k \<noteq> None"
    then obtain n where "map_of (createdTracks st1) ?k = Some n" by auto
    from forEach_keys [OF st1(1) this] assms(6) show False by auto
  qed
  let ?st2 = "st1\<lparr>doc := (doc st1)\<lparr>tracks := tracks (doc st1) @ [?T]\<rparr>,
                  createdTracks := createdTracks_set ?k ?p (createdTracks st1)\<rparr>"
  have T: "track_set (trackPropertyName entry) (JStr (entry_value entry)) new_track = ?T"
    by (simp add: title_entry_name [OF assms(3,4,5)] track_set_def new_track_def)
  have st2: "process_entry entry st1 = Inr ?st2"
    using process_entry_append [OF assms(3), of st1] none by (simp add: T)
  have v2: "positions_valid ?st2"
    using st1(2) unfolding positions_valid_def
    by (auto dest!: map_of_createdTracks_set intro: less_SucI)
  have o2: "owns ?k ?p ?st2"
    using st1(2) unfolding owns_def positions_valid_def
    by (auto dest!: map_of_createdTracks_set)
  from assms(6) have "\<forall>e\<in>set post. TRACK_PROPERTY_MATCHER e \<longrightarrow> existingTrackKey e \<noteq> ?k"
    by simp
  from forEach_owns [OF v2 o2 this] obtain st3
    where st3: "forEach post ?st2 = Inr st3" "?p < length (tracks (doc st3))"
      "tracks (doc st3) ! ?p = tracks (doc ?st2) ! ?p" by blast
  have "forEach (pre @ entry # post) ?st0 = Inr st3"
    using st1(1) st2 st3(1) by (simp add: forEach_append)
  with assms(1,2) have "plsParser rawPls = Inr (doc st3, [])"
    by (simp add: plsParser_def)
  moreover from st3(3) have "tracks (doc st3) ! ?p = ?T" by simp
  ultimately show ?thesis using st1(1) st3(2) by blast
qed

theorem title_only_track_witness:
  "startsWith ''[playlist]\<newline>File1=a\<newline>Title5=X\<newline>Length2=3'' ''[playlist]'' \<and>
   plsParts ''[playlist]\<newline>File1=a\<newline>Title5=X\<newline>Length2=3'' =
     [''[playlist]'', ''File1=a''] @ ''Title5=X'' # [''Length2=3''] \<and>
   TRACK_PROPERTY_MATCHER ''Title5=X'' \<and> startsWith ''Title5=X'' ''Title'' \<and>
   CHR ''='' \<in> set ''Title5=X'' \<and> existingTrackKey ''Title5=X'' = ''5'' \<and>
   existingTrackKey ''File1=a'' = ''1'' \<and> existingTrackKey ''Length2=3'' = ''2'' \<and>
   \<not> TRACK_PROPERTY_MATCHER ''[playlist]'' \<and>
   (\<exists>st1 d. forEach [''[playlist]'', ''File1=a''] \<lparr>doc = initial_pls, createdTracks = []\<rparr> = Inr st1 \<and>
      plsParser ''[playlist]\<newline>File1=a\<newline>Title5=X\<newline>Length2=3'' = Inr (d, []) \<and>
      length (tracks (doc st1)) < length (tracks d) \<and>
      tracks d ! length (tracks (doc st1)) =
        \<lparr>file = JStr [], length' = JNum (- 1), title = JStr ''X'', other = []\<rparr>) \<and>
   plsParser ''[playlist]\<newline>File1=a\<newline>Title5=X\<newline>Length2=3'' =
     Inr (\<lparr>numberofentries = JNum 0, playlistType = ''pls'',
           tracks = [\<lparr>file = JStr ''a'', length' = JNum (- 1), title = JStr [], other = []\<rparr>,
                     \<lparr>file = JStr [], length' = JNum (- 1), title = JStr ''X'', other = []\<rparr>,
                     \<lparr>file = JStr [], length' = JStr ''3'', title = JStr [], other = []\<rparr>],
           version = JNum 2\<rparr>, [])"
proof -
  have h: "startsWith ''[playlist]\<newline>File1=a\<newline>Title5=X\<newline>Length2=3'' ''[playlist]''"
    "plsParts ''[playlist]\<newline>File1=a\<newline>Title5=X\<newline>Length2=3'' =
       [''[playlist]'', ''File1=a''] @ ''Title5=X'' # [''Length2=3'']"
    "TRACK_PROPERTY_MATCHER ''Title5=X''" "startsWith ''Title5=X'' ''Title''"
    "CHR ''='' \<in> set ''Title5=X''" "existingTrackKey ''Title5=X'' = ''5''"
    "existingTrackKey ''File1=a'' = ''1''" "existingTrackKey ''Length2=3'' = ''2''"
    "\<not> TRACK_PROPERTY_MATCHER ''[playlist]''"
    by (simp_all add: eval_simps)
  have other: "\<forall>e\<in>set ([''[playlist]'', ''File1=a''] @ [''Length2=3'']).
      TRACK_PROPERTY_MATCHER e \<longrightarrow> existingTrackKey e \<noteq> existingTrackKey ''Title5=X''"
    using h(6-9) by simp
  have ev: "entry_value ''Title5=X'' = ''X''" by (simp add: entry_value_eq)
  have run: "plsParser ''[playlist]\<newline>File1=a\<newline>Title5=X\<newline>Length2=3'' =
     Inr (\<lparr>numberofentries = JNum 0, playlistType = ''pls'',
           tracks = [\<lparr>file = JStr ''a'', length' = JNum (- 1), title = JStr [], other = []\<rparr>,
                     \<lparr>file = JStr [], length' = JNum (- 1), title = JStr ''X'', other = []\<rparr>,
                     \<lparr>file = JStr [], length' = JStr ''3'', title = JStr [], other = []\<rparr>],
           version = JNum 2\<rparr>, [])"
    by (simp add: eval_simps)
  from title_only_track [OF h(1,2,3,4,5) other] ev h run show ?thesis by simp
qed

subsection \<open>Unrecognized entries\<close>

text \<open>
  Claim C9. An entry that matches none of the three rules (not a track-property entry, no
  prefix \<^verbatim>\<open>Numberofentries\<close>, no prefix \<^verbatim>\<open>Version\<close>; a blank line for one) leaves the
  whole state as it is, and so can be deleted from the entries without changing the outcome.
\<close>

theorem unrecognized_entry_ignored:
  assumes "\<not> TRACK_PROPERTY_MATCHER entry"
    and "\<not> startsWith entry ''Numberofentries''"
    and "\<not> startsWith entry ''Version''"
  shows "process_entry entry st = Inr st \<and>
         forEach (pre @ entry # post) st0 = forEach (pre @ post) st0"
proof -
  have step: "process_entry entry s = Inr s" for s
    using assms by (simp add: process_entry_other NUMBER_OF_ENTRIES_def VERSION_def)
  then show ?thesis
    by (simp add: forEach_append split: sum.splits)
qed

theorem unrecognized_entry_ignored_witness:
  "\<not> TRACK_PROPERTY_MATCHER [] \<and> \<not> startsWith [] ''Numberofentries'' \<and>
   \<not> startsWith [] ''Version'' \<and>
   process_entry [] \<lparr>doc = initial_pls, createdTracks = [(''1'', 0)]\<rparr>
     = Inr \<lparr>doc = initial_pls, createdTracks = [(''1'', 0)]\<rparr> \<and>
   forEach ([''File1=a''] @ [] # [''Version=2'']) \<lparr>doc = initial_pls, createdTracks = []\<rparr>
     = forEach ([''File1=a''] @ [''Version=2'']) \<lparr>doc = initial_pls, createdTracks = []\<rparr>"
  using unrecognized_entry_ignored [of "[]" "\<lparr>doc = initial_pls, createdTracks = [(''1'', 0)]\<rparr>"
      "[''File1=a'']" "[''Version=2'']" "\<lparr>doc = initial_pls, createdTracks = []\<rparr>"]
  by (simp add: TRACK_PROPERTY_MATCHER_def startsWith_def)

end
